theory Spec2Isabelle
  imports Complex_Main "HOL-Library.AList" "HOL-Library.Multiset"
begin

unbundle bit_operations_syntax

section \<open>Python values the simulator works with\<close>

text \<open>
  The exceptions the two backends can raise. \<open>SimulatorError\<close> carries its message; the
  others are the built-in exceptions of an index out of range, an operand of the wrong
  type, a missing dictionary key and a missing attribute.
\<close>

datatype error = SimulatorError string | IndexError | TypeError | KeyError | AttributeError

definition ebind :: "error + 'a \<Rightarrow> ('a \<Rightarrow> error + 'b) \<Rightarrow> error + 'b" where
  "ebind r f = (case r of Inl e \<Rightarrow> Inl e | Inr x \<Rightarrow> f x)"

text \<open>\<open>xs[i]\<close> for a non-negative index: IndexError out of range.\<close>

definition index :: "'a list \<Rightarrow> nat \<Rightarrow> error + 'a" where
  "index xs i = (if i < length xs then Inr (xs ! i) else Inl IndexError)"

text \<open>
  \<open>xs[start:stop]\<close> with step 1: a negative bound counts from the end, and both bounds
  are clipped to the list. \<open>None\<close> is an omitted \<open>stop\<close>.
\<close>

definition adjust_index :: "nat \<Rightarrow> int \<Rightarrow> nat" where
  "adjust_index len i = (if i < 0 then nat (i + int len) else min (nat i) len)"

definition py_slice :: "'a list \<Rightarrow> int \<Rightarrow> int option \<Rightarrow> 'a list" where
  "py_slice xs start stop =
     (let a = adjust_index (length xs) start;
          b = (case stop of None \<Rightarrow> length xs | Some s \<Rightarrow> adjust_index (length xs) s)
      in take (b - a) (drop a xs))"

fun join :: "string \<Rightarrow> string list \<Rightarrow> string" where
  "join sep [] = []"
| "join sep [x] = x"
| "join sep (x # y # ys) = x @ sep @ join sep (y # ys)"

fun bin_digits :: "nat \<Rightarrow> string" where
  "bin_digits n =
     (if n < 2 then [if n = 0 then CHR ''0'' else CHR ''1'']
      else bin_digits (n div 2) @ [if even n then CHR ''0'' else CHR ''1''])"

declare bin_digits.simps [simp del]

text \<open>\<open>format(n, 'b')\<close>\<close>

definition format_b :: "int \<Rightarrow> string" where
  "format_b n = (if n < 0 then CHR ''-'' # bin_digits (nat (- n)) else bin_digits (nat n))"

fun dec_digits :: "nat \<Rightarrow> string" where
  "dec_digits n =
     (if n < 10 then [''0123456789'' ! n]
      else dec_digits (n div 10) @ [''0123456789'' ! (n mod 10)])"

declare dec_digits.simps [simp del]

text \<open>\<open>str(n)\<close> of an integer\<close>

definition str_int :: "int \<Rightarrow> string" where
  "str_int n = (if n < 0 then CHR ''-'' # dec_digits (nat (- n)) else dec_digits (nat n))"

text \<open>\<open>s.zfill(width)\<close>: zeros go after a leading sign.\<close>

definition zfill :: "string \<Rightarrow> nat \<Rightarrow> string" where
  "zfill s width =
     (if width \<le> length s then s
      else (case s of
              [] \<Rightarrow> replicate width (CHR ''0'')
            | c # rest \<Rightarrow>
                if c = CHR ''+'' \<or> c = CHR ''-''
                then c # replicate (width - length s) (CHR ''0'') @ rest
                else replicate (width - length s) (CHR ''0'') @ s))"

text \<open>
  \<open>dict(Counter(xs))\<close> and \<open>OrderedDict(pairs)\<close>: dictionaries are association lists in
  insertion order; storing under a key that is present replaces the value in place.
\<close>

definition counter :: "'k list \<Rightarrow> ('k \<times> int) list" where
  "counter xs =
     fold (\<lambda>x c. AList.update x (case map_of c x of None \<Rightarrow> 1 | Some n \<Rightarrow> n + 1) c) xs []"

definition ordered_dict :: "('k \<times> 'v) list \<Rightarrow> ('k \<times> 'v) list" where
  "ordered_dict pairs = fold (\<lambda>(k, v) d. AList.update k v d) pairs []"

section \<open>The job structure\<close>

text \<open>
  A parameter of an instruction is a float (an angle), an integer or a string (a snapshot
  label). Floats are read as reals; the model does no arithmetic on them.
\<close>

datatype param = PFloat real | PInt int | PStr string

text \<open>
  A conditional clause holds the integers that \<open>int(operation.conditional.mask, 16)\<close> and
  \<open>int(operation.conditional.val, 16)\<close> return.
\<close>

record conditional =
  cond_mask :: int
  cond_val :: int

text \<open>
  An instruction. A list attribute that the instruction does not carry is the empty list.
\<close>

record operation =
  op_name :: string
  op_params :: "param list"
  op_qubits :: "nat list"
  op_clbits :: "nat list"
  op_conditional :: "conditional option"

record circuit_header =
  hdr_name :: string
  number_of_qubits :: nat
  number_of_clbits :: nat
  qubit_labels :: "(string \<times> nat) list"
  clbit_labels :: "(string \<times> nat) list"

text \<open>A \<open>config\<close> item; \<open>None\<close> is an attribute that is not there.\<close>

record item_config =
  cfg_seed :: "int option"
  cfg_shots :: "int option"

record circuit =
  circ_header :: circuit_header
  instructions :: "operation list"
  circ_config :: "item_config option"

record qobj =
  qobj_id :: string
  qobj_config :: "item_config option"
  experiments :: "circuit list"

section \<open>The simulation kernel\<close>

text \<open>
  The kernel is a library. The model keeps the sequence of calls made to it, in the
  order they are made, and takes what it answers from an environment: the bit a
  measurement collapses to and the amplitude vector it reports are functions of the
  calls made so far. A qubit handle is its position in the flattened register.
\<close>

datatype angle = Ang param | SubHalfPi param | AddHalfPi param | HalfPi

datatype kcall =
    KSimulator int
  | KCppSim int
  | KMainEngine
  | KAllocate nat
  | KRz angle nat
  | KRy angle nat
  | KRx angle nat
  | KT nat
  | KH nat
  | KS nat
  | KCX nat nat
  | KMeasure nat
  | KFlush
  | KCheat
  | KSetWavefunction nat

record 'sv env =
  measure_bit :: "kcall list \<Rightarrow> nat \<Rightarrow> bool"
  cheat :: "kcall list \<Rightarrow> 'sv"
  getrandbits :: int
  str_float :: "real \<Rightarrow> string"

definition py_str :: "'sv env \<Rightarrow> param \<Rightarrow> string" where
  "py_str env p = (case p of PInt i \<Rightarrow> str_int i | PStr s \<Rightarrow> s | PFloat r \<Rightarrow> str_float env r)"

text \<open>\<open>p - np.pi/2\<close> and \<open>p + np.pi/2\<close>: defined on numbers, a TypeError on a string.\<close>

definition sub_half_pi :: "param \<Rightarrow> error + angle" where
  "sub_half_pi p = (case p of PStr s \<Rightarrow> Inl TypeError | _ \<Rightarrow> Inr (SubHalfPi p))"

definition add_half_pi :: "param \<Rightarrow> error + angle" where
  "add_half_pi p = (case p of PStr s \<Rightarrow> Inl TypeError | _ \<Rightarrow> Inr (AddHalfPi p))"

section \<open>QasmSimulatorProjectQ\<close>

subsection \<open>The register layout: \<open>_get_register_specs\<close>\<close>

text \<open>\<open>itertools.groupby(xs, key)\<close>: one group per maximal run of equal keys.\<close>

function groupby :: "('a \<Rightarrow> 'k) \<Rightarrow> 'a list \<Rightarrow> ('k \<times> 'a list) list" where
  "groupby f [] = []"
| "groupby f (x # xs) =
     (f x, x # takeWhile (\<lambda>y. f y = f x) xs) # groupby f (dropWhile (\<lambda>y. f y = f x) xs)"
  by pat_completeness auto
termination
  by (relation "measure (\<lambda>(f, xs). length xs)") (auto simp: length_dropWhile_le less_Suc_eq_le)

text \<open>\<open>max\<close> of a generator: a group of \<open>groupby\<close> is never empty.\<close>

definition max_list :: "nat list \<Rightarrow> nat" where
  "max_list xs = fold max xs 0"

definition get_register_specs :: "(string \<times> nat) list \<Rightarrow> (string \<times> nat) list" where
  "get_register_specs bit_labels =
     map (\<lambda>(register_name, sub_it). (register_name, max_list (map snd sub_it) + 1))
       (groupby fst bit_labels)"

subsection \<open>The result formatter: \<open>_format_result\<close>\<close>

definition format_key :: "string \<Rightarrow> nat list \<Rightarrow> nat list \<Rightarrow> error + string" where
  "format_key key cl_reg_index cl_reg_nbits =
     ebind (index cl_reg_nbits 0) (\<lambda>nbits0.
       Inr (join '' ''
         (fold (\<lambda>(idx, nbits) new_key.
                  py_slice key (- int (idx + nbits)) (Some (- int idx)) # new_key)
            (zip (tl cl_reg_index) (tl cl_reg_nbits))
            [py_slice key (- int nbits0) None])))"

fun format_items ::
  "(string \<times> int) list \<Rightarrow> nat list \<Rightarrow> nat list \<Rightarrow> (string \<times> int) list
    \<Rightarrow> error + (string \<times> int) list" where
  "format_items [] cl_reg_index cl_reg_nbits fcounts = Inr fcounts"
| "format_items ((key, v) # rest) cl_reg_index cl_reg_nbits fcounts =
     ebind (format_key key cl_reg_index cl_reg_nbits) (\<lambda>new_key.
       format_items rest cl_reg_index cl_reg_nbits (AList.update new_key v fcounts))"

definition format_result ::
  "(string \<times> int) list \<Rightarrow> nat list \<Rightarrow> nat list \<Rightarrow> error + (string \<times> int) list" where
  "format_result counts cl_reg_index cl_reg_nbits =
     format_items counts cl_reg_index cl_reg_nbits []"

subsection \<open>The conditional clause (\<open>run_circuit\<close>, lines 200 to 208)\<close>

text \<open>
  The loop \<open>while (mask & 0x1) == 0: mask >>= 1; value >>= 1\<close>. It does not return on
  mask 0, so its result is an option.
\<close>

partial_function (option) shift_loop :: "int \<Rightarrow> int \<Rightarrow> (int \<times> int) option" where
  "shift_loop m v =
     (if m AND 1 = 0 then shift_loop (drop_bit 1 m) (drop_bit 1 v)
      else Some (m, v))"

text \<open>
  \<open>Some True\<close>: the instruction goes on to the dispatch; \<open>Some False\<close>: \<open>continue\<close>.
\<close>

definition evaluate_conditional :: "conditional option \<Rightarrow> int \<Rightarrow> bool option" where
  "evaluate_conditional c state =
     (case c of
        None \<Rightarrow> Some True
      | Some cnd \<Rightarrow>
          (if cond_mask cnd > 0 then
             (case shift_loop (cond_mask cnd) (state AND cond_mask cnd) of
                None \<Rightarrow> None
              | Some (m, v) \<Rightarrow> Some (v = cond_val cnd))
           else Some True))"

subsection \<open>The dispatch (\<open>run_circuit\<close>, lines 210 to 271)\<close>

record 'sv run_state =
  classical_state :: int
  kernel :: "kcall list"
  snapshots :: "(string \<times> 'sv list) list"
  outcomes :: "string list"

definition apply_gates :: "kcall list \<Rightarrow> 'sv run_state \<Rightarrow> 'sv run_state" where
  "apply_gates cs st = st\<lparr>kernel := kernel st @ cs\<rparr>"

text \<open>\<open>qureg[operation.qubits[k]]\<close>\<close>

definition qubit_of :: "nat list \<Rightarrow> operation \<Rightarrow> nat \<Rightarrow> error + nat" where
  "qubit_of qureg operation k = ebind (index (op_qubits operation) k) (index qureg)"

definition reset_message :: string where
  "reset_message = ''Reset operation not yet implemented for ProjectQ C++ backend''"

definition unrecognized_message :: "string \<Rightarrow> string \<Rightarrow> string" where
  "unrecognized_message backend nm =
     backend @ '' encountered unrecognized operation '' @ [CHR 0x22] @ nm @ [CHR 0x22]"

definition set_bit_from_measurement :: "int \<Rightarrow> nat \<Rightarrow> bool \<Rightarrow> int" where
  "set_bit_from_measurement state clbit b =
     (state AND NOT (push_bit clbit 1)) OR push_bit clbit (of_bool b)"

definition dispatch ::
  "'sv env \<Rightarrow> string \<Rightarrow> nat list \<Rightarrow> operation \<Rightarrow> 'sv run_state \<Rightarrow> error + 'sv run_state" where
  "dispatch env backend qureg operation st =
     (if op_name operation = ''U'' \<or> op_name operation = ''u3'' then
        ebind (qubit_of qureg operation 0) (\<lambda>qubit.
        ebind (index (op_params operation) 2) (\<lambda>p2.
        ebind (index (op_params operation) 0) (\<lambda>p0.
        ebind (index (op_params operation) 1) (\<lambda>p1.
          Inr (apply_gates [KRz (Ang p2) qubit, KRy (Ang p0) qubit, KRz (Ang p1) qubit] st)))))
      else if op_name operation = ''u1'' then
        ebind (qubit_of qureg operation 0) (\<lambda>qubit.
        ebind (index (op_params operation) 0) (\<lambda>p0.
          Inr (apply_gates [KRz (Ang p0) qubit] st)))
      else if op_name operation = ''u2'' then
        ebind (qubit_of qureg operation 0) (\<lambda>qubit.
        ebind (index (op_params operation) 1) (\<lambda>p1.
        ebind (sub_half_pi p1) (\<lambda>a1.
        ebind (index (op_params operation) 0) (\<lambda>p0.
        ebind (add_half_pi p0) (\<lambda>a0.
          Inr (apply_gates [KRz a1 qubit, KRx HalfPi qubit, KRz a0 qubit] st))))))
      else if op_name operation = ''t'' then
        ebind (qubit_of qureg operation 0) (\<lambda>qubit. Inr (apply_gates [KT qubit] st))
      else if op_name operation = ''h'' then
        ebind (qubit_of qureg operation 0) (\<lambda>qubit. Inr (apply_gates [KH qubit] st))
      else if op_name operation = ''s'' then
        ebind (qubit_of qureg operation 0) (\<lambda>qubit. Inr (apply_gates [KS qubit] st))
      else if op_name operation = ''CX'' \<or> op_name operation = ''cx'' then
        ebind (qubit_of qureg operation 0) (\<lambda>qubit0.
        ebind (qubit_of qureg operation 1) (\<lambda>qubit1.
          Inr (apply_gates [KCX qubit0 qubit1] st)))
      else if op_name operation = ''id'' \<or> op_name operation = ''u0'' then
        Inr st
      else if op_name operation = ''measure'' then
        ebind (qubit_of qureg operation 0) (\<lambda>qubit.
        ebind (index (op_clbits operation) 0) (\<lambda>clbit.
          Inr (st\<lparr>classical_state :=
                     set_bit_from_measurement (classical_state st) clbit
                       (measure_bit env (kernel st) qubit),
                   kernel := kernel st @ [KMeasure qubit]\<rparr>)))
      else if op_name operation = ''reset'' then
        ebind (index (op_qubits operation) 0) (\<lambda>qubit. Inl (SimulatorError reset_message))
      else if op_name operation = ''snapshot'' then
        ebind (index (op_params operation) 0) (\<lambda>p0.
          (let location = py_str env p0;
               statevector = cheat env (kernel st @ [KFlush]);
               k = kernel st @ [KFlush, KCheat]
           in Inr (st\<lparr>kernel := k,
                      snapshots :=
                        (case map_of (snapshots st) location of
                           Some vs \<Rightarrow> AList.update location (vs @ [statevector]) (snapshots st)
                         | None \<Rightarrow> AList.update location [statevector] (snapshots st))\<rparr>)))
      else if op_name operation = ''barrier'' then
        Inr st
      else
        Inl (SimulatorError (unrecognized_message backend (op_name operation))))"

subsection \<open>One shot and the loop over shots\<close>

text \<open>
  The results of the loops are options of sums: \<open>None\<close> is a loop that does not return,
  \<open>Some (Inl e)\<close> the exception \<open>e\<close>, \<open>Some (Inr st)\<close> the state the loop ends in.
\<close>

fun run_ops ::
  "'sv env \<Rightarrow> string \<Rightarrow> nat list \<Rightarrow> operation list \<Rightarrow> 'sv run_state
    \<Rightarrow> (error + 'sv run_state) option" where
  "run_ops env backend qureg [] st = Some (Inr st)"
| "run_ops env backend qureg (operation # rest) st =
     (case evaluate_conditional (op_conditional operation) (classical_state st) of
        None \<Rightarrow> None
      | Some False \<Rightarrow> run_ops env backend qureg rest st
      | Some True \<Rightarrow>
          (case dispatch env backend qureg operation st of
             Inl e \<Rightarrow> Some (Inl e)
           | Inr st' \<Rightarrow> run_ops env backend qureg rest st'))"

text \<open>The terminal measurement of every qubit (lines 276 to 278).\<close>

fun measure_each :: "nat list \<Rightarrow> nat list \<Rightarrow> kcall list \<Rightarrow> error + kcall list" where
  "measure_each qureg [] k = Inr k"
| "measure_each qureg (ind # inds) k =
     ebind (index qureg ind) (\<lambda>qubit. measure_each qureg inds (k @ [KMeasure qubit]))"

definition run_shot ::
  "'sv env \<Rightarrow> string \<Rightarrow> circuit \<Rightarrow> nat list \<Rightarrow> nat \<Rightarrow> 'sv run_state
    \<Rightarrow> (error + 'sv run_state) option" where
  "run_shot env backend circ qureg i st =
     (let st1 = st\<lparr>classical_state := 0\<rparr>;
          st2 = (if i > 0
                 then apply_gates
                        [KFlush, KSetWavefunction (2 ^ number_of_qubits (circ_header circ))] st1
                 else st1)
      in case run_ops env backend qureg (instructions circ) st2 of
           None \<Rightarrow> None
         | Some (Inl e) \<Rightarrow> Some (Inl e)
         | Some (Inr st3) \<Rightarrow>
             (case measure_each qureg [0..<number_of_qubits (circ_header circ)] (kernel st3) of
                Inl e \<Rightarrow> Some (Inl e)
              | Inr k \<Rightarrow>
                  Some (Inr (st3\<lparr>kernel := k @ [KFlush],
                                outcomes := outcomes st3 @
                                  [zfill (format_b (classical_state st3))
                                     (number_of_clbits (circ_header circ))]\<rparr>))))"

fun run_shots ::
  "'sv env \<Rightarrow> string \<Rightarrow> circuit \<Rightarrow> nat list \<Rightarrow> nat list \<Rightarrow> 'sv run_state
    \<Rightarrow> (error + 'sv run_state) option" where
  "run_shots env backend circ qureg [] st = Some (Inr st)"
| "run_shots env backend circ qureg (i # rest) st =
     (case run_shot env backend circ qureg i st of
        None \<Rightarrow> None
      | Some (Inl e) \<Rightarrow> Some (Inl e)
      | Some (Inr st') \<Rightarrow> run_shots env backend circ qureg rest st')"

subsection \<open>\<open>run_circuit\<close>\<close>

record 'sv result_data =
  counts :: "(string \<times> int) list"
  data_snapshots :: "(string \<times> 'sv list) list option"
  data_classical_state :: "int option"
  data_statevector :: "'sv option"

text \<open>The record of one circuit; \<open>time_taken\<close> is wall-clock time and is left out.\<close>

record 'sv experiment_result =
  res_name :: string
  res_seed :: int
  res_shots :: int
  res_data :: "'sv result_data"
  res_status :: string
  res_success :: bool

fun cl_reg_offsets :: "nat \<Rightarrow> (string \<times> nat) list \<Rightarrow> nat list" where
  "cl_reg_offsets clbit_index [] = []"
| "cl_reg_offsets clbit_index (cl_reg # rest) =
     clbit_index # cl_reg_offsets (clbit_index + snd cl_reg) rest"

text \<open>
  The kernel calls that set a circuit up: the engine, the new \<open>CppSim\<close> when the circuit
  has a config whose seed is truthy, and one allocation per quantum register.
\<close>

definition seed_override :: "circuit \<Rightarrow> kcall list" where
  "seed_override circ =
     (case circ_config circ of
        None \<Rightarrow> []
      | Some cfg \<Rightarrow>
          (case cfg_seed cfg of
             None \<Rightarrow> []
           | Some s \<Rightarrow> if s \<noteq> 0 then [KCppSim s] else []))"

definition qobj_quregs :: "circuit \<Rightarrow> (string \<times> nat) list" where
  "qobj_quregs circ = ordered_dict (get_register_specs (qubit_labels (circ_header circ)))"

definition setup_calls :: "circuit \<Rightarrow> kcall list" where
  "setup_calls circ =
     [KMainEngine] @ seed_override circ @ map (\<lambda>(key, size). KAllocate size) (qobj_quregs circ)"

definition flat_qureg :: "circuit \<Rightarrow> nat list" where
  "flat_qureg circ = [0..<sum_list (map snd (qobj_quregs circ))]"

definition initial_state :: "circuit \<Rightarrow> kcall list \<Rightarrow> 'sv run_state" where
  "initial_state circ sim =
     \<lparr>classical_state = 0, kernel = sim @ setup_calls circ, snapshots = [], outcomes = []\<rparr>"

definition run_circuit ::
  "'sv env \<Rightarrow> string \<Rightarrow> int \<Rightarrow> int \<Rightarrow> circuit \<Rightarrow> kcall list
    \<Rightarrow> (error + 'sv experiment_result \<times> kcall list) option" where
  "run_circuit env backend seed shots circ sim =
     (let cl_reg_nbits = map snd (clbit_labels (circ_header circ));
          cl_reg_index = cl_reg_offsets 0 (clbit_labels (circ_header circ))
      in case run_shots env backend circ (flat_qureg circ) [0..<nat shots]
                (initial_state circ sim) of
           None \<Rightarrow> None
         | Some (Inl e) \<Rightarrow> Some (Inl e)
         | Some (Inr st) \<Rightarrow>
             (case format_result (counter (outcomes st)) cl_reg_index cl_reg_nbits of
                Inl e \<Rightarrow> Some (Inl e)
              | Inr fcounts \<Rightarrow>
                  Some (Inr
                    (\<lparr>res_name = hdr_name (circ_header circ),
                      res_seed = seed,
                      res_shots = shots,
                      res_data =
                        \<lparr>counts = fcounts,
                         data_snapshots =
                           (if snapshots st \<noteq> [] then Some (snapshots st) else None),
                         data_classical_state =
                           (if shots = 1 then Some (classical_state st) else None),
                         data_statevector = None\<rparr>,
                      res_status = ''DONE'',
                      res_success = True\<rparr>,
                     kernel st))))"

subsection \<open>\<open>_validate\<close> and \<open>_run_job\<close>\<close>

text \<open>
  \<open>_validate\<close> only warns. It returns the job as it is, with the warnings it emitted:
  the deprecation warning and the names of the circuits without a measurement.
\<close>

definition deprecation_message :: string where
  "deprecation_message = ''The behavior of getting statevector from simulators by setting shots=1 is deprecated and has been removed for this simulator. Use the local_statevector_simulator instead, or place explicit snapshot instructions.''"

definition no_measure_message :: "string \<Rightarrow> string" where
  "no_measure_message nm =
     ''no measurements in circuit '' @ [CHR 0x27] @ nm @ [CHR 0x27] @
     '', classical register will remain all zeros.''"

definition qasm_validate :: "qobj \<Rightarrow> error + qobj \<times> string list" where
  "qasm_validate q =
     (case qobj_config q of
        None \<Rightarrow> Inl AttributeError
      | Some cfg \<Rightarrow>
          (case cfg_shots cfg of
             None \<Rightarrow> Inl AttributeError
           | Some shots \<Rightarrow>
               Inr (q, (if shots = 1 then [deprecation_message] else []) @
                       map (\<lambda>circ. no_measure_message (hdr_name (circ_header circ)))
                         (filter (\<lambda>circ. ''measure'' \<notin> set (map op_name (instructions circ)))
                            (experiments q)))))"

record 'sv job_result =
  job_backend :: string
  job_qobj_id :: string
  job_results :: "'sv experiment_result list"
  job_status :: string
  job_success :: bool

fun run_circuits ::
  "'sv env \<Rightarrow> string \<Rightarrow> int \<Rightarrow> int \<Rightarrow> circuit list \<Rightarrow> kcall list
    \<Rightarrow> (error + 'sv experiment_result list \<times> kcall list) option" where
  "run_circuits env backend seed shots [] sim = Some (Inr ([], sim))"
| "run_circuits env backend seed shots (circ # rest) sim =
     (case run_circuit env backend seed shots circ sim of
        None \<Rightarrow> None
      | Some (Inl e) \<Rightarrow> Some (Inl e)
      | Some (Inr (res, sim')) \<Rightarrow>
          (case run_circuits env backend seed shots rest sim' of
             None \<Rightarrow> None
           | Some (Inl e) \<Rightarrow> Some (Inl e)
           | Some (Inr (ress, sim'')) \<Rightarrow> Some (Inr (res # ress, sim''))))"

text \<open>
  \<open>_run_job\<close> calls \<open>self._validate\<close>, the method of the class of \<open>self\<close>: it is an
  argument here. The job identifier and the times are left out of the result.
\<close>

definition run_job ::
  "(qobj \<Rightarrow> error + qobj \<times> string list) \<Rightarrow> 'sv env \<Rightarrow> string \<Rightarrow> qobj
    \<Rightarrow> (error + 'sv job_result \<times> kcall list \<times> string list) option" where
  "run_job validate env backend q0 =
     (case validate q0 of
        Inl e \<Rightarrow> Some (Inl e)
      | Inr (q, warns) \<Rightarrow>
          (case qobj_config q of
             None \<Rightarrow> Some (Inl AttributeError)
           | Some cfg \<Rightarrow>
               (let seed = (case cfg_seed cfg of None \<Rightarrow> getrandbits env | Some s \<Rightarrow> s)
                in case cfg_shots cfg of
                     None \<Rightarrow> Some (Inl AttributeError)
                   | Some shots \<Rightarrow>
                       (case run_circuits env backend seed shots (experiments q)
                               [KSimulator seed] of
                          None \<Rightarrow> None
                        | Some (Inl e) \<Rightarrow> Some (Inl e)
                        | Some (Inr (result_list, sim)) \<Rightarrow>
                            Some (Inr
                              (\<lparr>job_backend = backend,
                                job_qobj_id = qobj_id q,
                                job_results = result_list,
                                job_status = ''COMPLETED'',
                                job_success = True\<rparr>,
                               sim, warns))))))"

definition qasm_run_job ::
  "'sv env \<Rightarrow> string \<Rightarrow> qobj \<Rightarrow> (error + 'sv job_result \<times> kcall list \<times> string list) option" where
  "qasm_run_job env backend q = run_job qasm_validate env backend q"

section \<open>StatevectorSimulatorProjectQ\<close>

subsection \<open>\<open>_set_shots_to_1\<close> and \<open>_validate\<close>\<close>

text \<open>
  \<open>_set_shots_to_1\<close> works on the config of a job or of a circuit. The name is that of
  the circuit's header when \<open>include_name\<close> is set, and \<open>None\<close> otherwise. It returns the
  config it leaves on the item and the diagnostics it logs.
\<close>

definition shots_message :: "string option \<Rightarrow> string" where
  "shots_message nm =
     ''statevector simulator only supports 1 shot. Setting shots=1'' @
     (case nm of None \<Rightarrow> [] | Some n \<Rightarrow> ''Setting shots=1 for circuit'' @ n) @ ''.''"

definition set_shots_to_1 :: "item_config option \<Rightarrow> string option \<Rightarrow> item_config \<times> string list" where
  "set_shots_to_1 cfg nm =
     (let c = (case cfg of None \<Rightarrow> \<lparr>cfg_seed = None, cfg_shots = Some 1\<rparr> | Some c \<Rightarrow> c)
      in (c\<lparr>cfg_shots := Some 1\<rparr>,
          if cfg_shots c \<noteq> Some 1 then [shots_message nm] else []))"

definition unsupported_message :: "string \<Rightarrow> string" where
  "unsupported_message nm =
     ''In circuit '' @ nm @ '': statevector simulator does not support measure or reset.''"

definition measure_or_reset :: "operation \<Rightarrow> bool" where
  "measure_or_reset operator = (op_name operator = ''measure'' \<or> op_name operator = ''reset'')"

fun sv_validate_circuits :: "circuit list \<Rightarrow> error + circuit list \<times> string list" where
  "sv_validate_circuits [] = Inr ([], [])"
| "sv_validate_circuits (circ # rest) =
     (let (cfg, w) = set_shots_to_1 (circ_config circ) (Some (hdr_name (circ_header circ)))
      in if list_ex measure_or_reset (instructions circ)
         then Inl (SimulatorError (unsupported_message (hdr_name (circ_header circ))))
         else (case sv_validate_circuits rest of
                 Inl e \<Rightarrow> Inl e
               | Inr (cs, ws) \<Rightarrow> Inr (circ\<lparr>circ_config := Some cfg\<rparr> # cs, w @ ws)))"

definition sv_validate :: "qobj \<Rightarrow> error + qobj \<times> string list" where
  "sv_validate q =
     (let (cfg, w) = set_shots_to_1 (qobj_config q) None
      in case sv_validate_circuits (experiments q) of
           Inl e \<Rightarrow> Inl e
         | Inr (cs, ws) \<Rightarrow> Inr (q\<lparr>qobj_config := Some cfg, experiments := cs\<rparr>, w @ ws))"

subsection \<open>\<open>_run_job\<close>\<close>

definition final_state_key :: int where
  "final_state_key = 32767"

definition final_snapshot :: operation where
  "final_snapshot =
     \<lparr>op_name = ''snapshot'', op_params = [PInt final_state_key], op_qubits = [],
      op_clbits = [], op_conditional = None\<rparr>"

definition add_final_snapshot :: "circuit \<Rightarrow> circuit" where
  "add_final_snapshot circ = circ\<lparr>instructions := instructions circ @ [final_snapshot]\<rparr>"

text \<open>
  The body of the loop over the results (lines 79 to 89). The key the loop pops is the
  string of \<open>final_state_key\<close> when the store has it; when it has not, \<open>pop\<close> returns
  \<open>None\<close>, whose subscript is a TypeError.
\<close>

definition extract_statevector :: "'sv experiment_result \<Rightarrow> error + 'sv experiment_result" where
  "extract_statevector res =
     (case data_snapshots (res_data res) of
        None \<Rightarrow> Inl KeyError
      | Some snaps \<Rightarrow>
          (case map_of snaps (str_int final_state_key) of
             None \<Rightarrow> Inl TypeError
           | Some final_state \<Rightarrow>
               ebind (index final_state 0) (\<lambda>v.
                 (let snaps' = AList.delete (str_int final_state_key) snaps
                  in Inr (res\<lparr>res_data := (res_data res)
                            \<lparr>data_statevector := Some v,
                             data_snapshots := (if snaps' = [] then None else Some snaps')\<rparr>\<rparr>)))))"

fun extract_all :: "'sv experiment_result list \<Rightarrow> error + 'sv experiment_result list" where
  "extract_all [] = Inr []"
| "extract_all (res # rest) =
     ebind (extract_statevector res) (\<lambda>res'.
       ebind (extract_all rest) (\<lambda>rest'. Inr (res' # rest')))"

definition sv_run_job ::
  "'sv env \<Rightarrow> string \<Rightarrow> qobj \<Rightarrow> (error + 'sv job_result \<times> kcall list \<times> string list) option" where
  "sv_run_job env backend q0 =
     (case sv_validate q0 of
        Inl e \<Rightarrow> Some (Inl e)
      | Inr (q1, warns1) \<Rightarrow>
          (case run_job sv_validate env backend
                  (q1\<lparr>experiments := map add_final_snapshot (experiments q1)\<rparr>) of
             None \<Rightarrow> None
           | Some (Inl e) \<Rightarrow> Some (Inl e)
           | Some (Inr (result, sim, warns2)) \<Rightarrow>
               (case extract_all (job_results result) of
                  Inl e \<Rightarrow> Some (Inl e)
                | Inr ress \<Rightarrow> Some (Inr (result\<lparr>job_results := ress\<rparr>, sim, warns1 @ warns2)))))"

section \<open>Notions the properties are stated with\<close>

text \<open>The position of the lowest set bit of a positive integer.\<close>

function lowest_set_bit :: "int \<Rightarrow> nat" where
  "lowest_set_bit m = (if m \<le> 0 \<or> odd m then 0 else Suc (lowest_set_bit (m div 2)))"
  by pat_completeness auto
termination
  by (relation "measure nat") auto

declare lowest_set_bit.simps [simp del]

text \<open>
  The conditional predicate as the specification words it: on a zero mask true, otherwise
  the current state and the mask are shifted right together until the lowest bit of the
  mask is set, and the shifted state is compared with the expected value.
\<close>

definition spec_evaluate_conditional :: "int \<Rightarrow> int \<Rightarrow> int \<Rightarrow> bool option" where
  "spec_evaluate_conditional m expected state =
     (if m = 0 then Some True
      else (case shift_loop m state of
              None \<Rightarrow> None
            | Some (m', v) \<Rightarrow> Some (v = expected)))"

text \<open>
  A measurement event is the target classical bit with the bit measured. The tracker
  applies the events in order; the composition by bitwise OR shifts each measured bit to
  its target position.
\<close>

definition apply_measurements :: "(nat \<times> bool) list \<Rightarrow> int \<Rightarrow> int" where
  "apply_measurements ms state = fold (\<lambda>(clbit, b) s. set_bit_from_measurement s clbit b) ms state"

definition or_composition :: "(nat \<times> bool) list \<Rightarrow> int" where
  "or_composition ms = fold (\<lambda>(clbit, b) s. s OR push_bit clbit (of_bool b)) ms 0"

text \<open>
  The measurement events of a run of instructions that carry no conditional clause: each
  measure instruction that the dispatch executes contributes its target bit and the bit
  the kernel measured.
\<close>

fun measured_bits ::
  "'sv env \<Rightarrow> string \<Rightarrow> nat list \<Rightarrow> operation list \<Rightarrow> 'sv run_state \<Rightarrow> (nat \<times> bool) list" where
  "measured_bits env backend qureg [] st = []"
| "measured_bits env backend qureg (operation # rest) st =
     (case dispatch env backend qureg operation st of
        Inl e \<Rightarrow> []
      | Inr st' \<Rightarrow>
          (if op_name operation = ''measure'' then
             (case (index (op_clbits operation) 0, qubit_of qureg operation 0) of
                (Inr clbit, Inr qubit) \<Rightarrow> [(clbit, measure_bit env (kernel st) qubit)]
              | _ \<Rightarrow> [])
           else []) @ measured_bits env backend qureg rest st')"

text \<open>
  The formatted key as the specification words it: the key is the concatenation of the
  registers' bits, most significant first, so the register at offset \<open>idx\<close> with
  \<open>nbits\<close> bits owns the characters that end \<open>idx\<close> places before the end of the
  key; the substrings are joined by single spaces, last-declared register leftmost.
\<close>

definition register_bits :: "string \<Rightarrow> nat \<Rightarrow> nat \<Rightarrow> string" where
  "register_bits key idx nbits = take nbits (drop (length key - (idx + nbits)) key)"

definition spec_format_key :: "string \<Rightarrow> nat list \<Rightarrow> nat list \<Rightarrow> string" where
  "spec_format_key key cl_reg_index cl_reg_nbits =
     join '' '' (rev (map (\<lambda>(idx, nbits). register_bits key idx nbits)
                       (zip cl_reg_index cl_reg_nbits)))"

text \<open>The labels of the snapshot instructions of a circuit, as the store keys them.\<close>

definition snapshot_labels :: "'sv env \<Rightarrow> operation list \<Rightarrow> string list" where
  "snapshot_labels env ops =
     concat (map (\<lambda>operation.
                    if op_name operation = ''snapshot''
                    then (case op_params operation of [] \<Rightarrow> [] | p # ps \<Rightarrow> [py_str env p])
                    else [])
              ops)"

text \<open>The elements of a list in the order of their first appearance.\<close>

definition first_appearance :: "'a list \<Rightarrow> 'a list" where
  "first_appearance xs = rev (remdups (rev xs))"

text \<open>
  A kernel for the examples: a measurement of qubit 0 gives 1 and of any other qubit 0,
  and the amplitude vector it reports stands for the number of calls made before it is read.
\<close>

definition example_env :: "nat env" where
  "example_env =
     \<lparr>measure_bit = (\<lambda>k q. q = 0), cheat = length, getrandbits = 7, str_float = (\<lambda>r. ''f'')\<rparr>"

text \<open>
  Circuits for the examples, on one qubit and one classical bit: a single reset with a
  given conditional clause, and a Hadamard gate, a reset and a measurement in a row.
\<close>

definition reset_circuit :: "conditional option \<Rightarrow> circuit" where
  "reset_circuit c =
     \<lparr>circ_header = \<lparr>hdr_name = ''circ'', number_of_qubits = 1, number_of_clbits = 1,
                      qubit_labels = [(''q'', 0)], clbit_labels = [(''c'', 1)]\<rparr>,
      instructions = [\<lparr>op_name = ''reset'', op_params = [], op_qubits = [0], op_clbits = [],
                       op_conditional = c\<rparr>],
      circ_config = None\<rparr>"

definition reset_after_h :: circuit where
  "reset_after_h =
     \<lparr>circ_header = \<lparr>hdr_name = ''circ'', number_of_qubits = 1, number_of_clbits = 1,
                      qubit_labels = [(''q'', 0)], clbit_labels = [(''c'', 1)]\<rparr>,
      instructions =
        [\<lparr>op_name = ''h'', op_params = [], op_qubits = [0], op_clbits = [], op_conditional = None\<rparr>,
         \<lparr>op_name = ''reset'', op_params = [], op_qubits = [0], op_clbits = [],
          op_conditional = None\<rparr>,
         \<lparr>op_name = ''measure'', op_params = [], op_qubits = [0], op_clbits = [0],
          op_conditional = None\<rparr>],
      circ_config = None\<rparr>"

section \<open>The conditional clause\<close>

text \<open>
  On a positive mask the loop returns: it shifts by the position of the lowest set bit of
  the mask.
\<close>

lemma shift_loop_closed:
  "0 < m \<Longrightarrow> shift_loop m v = Some (drop_bit (lowest_set_bit m) m, drop_bit (lowest_set_bit m) v)"
proof (induction m arbitrary: v rule: lowest_set_bit.induct)
  case (1 m)
  show ?case
  proof (cases "odd m")
    case True
    then have "m AND 1 \<noteq> 0" by (simp add: and_one_eq odd_iff_mod_2_eq_one)
    moreover have "lowest_set_bit m = 0" using True by (simp add: lowest_set_bit.simps)
    ultimately show ?thesis by (subst shift_loop.simps) simp
  next
    case False
    with "1.prems" have pos: "0 < m div 2" by presburger
    have ev: "m AND 1 = 0" using False by (simp add: and_one_eq even_iff_mod_2_eq_zero)
    have l: "lowest_set_bit m = Suc (lowest_set_bit (m div 2))"
      using False "1.prems" by (subst lowest_set_bit.simps) simp
    have "shift_loop m v = shift_loop (m div 2) (v div 2)"
      using ev by (subst shift_loop.simps) (simp add: drop_bit_Suc)
    also have "\<dots> = Some (drop_bit (lowest_set_bit (m div 2)) (m div 2),
                           drop_bit (lowest_set_bit (m div 2)) (v div 2))"
      using "1.IH" [of "v div 2"] False "1.prems" pos by simp
    finally show ?thesis by (simp add: l drop_bit_Suc)
  qed
qed

lemma lowest_set_bit_odd: "0 < m \<Longrightarrow> odd (drop_bit (lowest_set_bit m) m)"
proof (induction m rule: lowest_set_bit.induct)
  case (1 m)
  show ?case
  proof (cases "odd m")
    case True
    then show ?thesis by (simp add: lowest_set_bit.simps)
  next
    case False
    with "1.prems" have pos: "0 < m div 2" by presburger
    have l: "lowest_set_bit m = Suc (lowest_set_bit (m div 2))"
      using False "1.prems" by (subst lowest_set_bit.simps) simp
    show ?thesis using "1.IH" False "1.prems" pos by (simp add: l drop_bit_Suc)
  qed
qed

lemma lowest_set_bit_least: "0 < m \<Longrightarrow> n < lowest_set_bit m \<Longrightarrow> even (drop_bit n m)"
proof (induction m arbitrary: n rule: lowest_set_bit.induct)
  case (1 m)
  show ?case
  proof (cases "odd m")
    case True
    then show ?thesis using "1.prems" by (simp add: lowest_set_bit.simps)
  next
    case False
    with "1.prems" have pos: "0 < m div 2" by presburger
    have l: "lowest_set_bit m = Suc (lowest_set_bit (m div 2))"
      using False "1.prems" by (subst lowest_set_bit.simps) simp
    show ?thesis
    proof (cases n)
      case 0
      then show ?thesis using False by simp
    next
      case (Suc k)
      then show ?thesis using "1.IH" [of k] False "1.prems" pos by (simp add: l drop_bit_Suc)
    qed
  qed
qed

lemma evaluate_conditional_closed:
  "evaluate_conditional (Some \<lparr>cond_mask = m, cond_val = e\<rparr>) state =
     (if 0 < m then Some (drop_bit (lowest_set_bit m) (state AND m) = e) else Some True)"
  by (simp add: evaluate_conditional_def shift_loop_closed)

text \<open>The screening of an instruction always returns.\<close>

lemma evaluate_conditional_total: "\<exists>b. evaluate_conditional c state = Some b"
  by (cases c) (auto simp: evaluate_conditional_def shift_loop_closed)

text \<open>
  C2, as the code has it. A clause whose mask is zero lets the instruction execute. On a
  positive mask the code first masks the classical state (\<open>value = state & mask\<close>), then
  shifts the masked value and the mask right together, by the position \<open>k\<close> of the lowest
  set bit of the mask (the shifted mask is odd, and no smaller shift makes it odd), and
  the predicate is the equality of the shifted masked value with the expected value.
  With mask \<open>0b0110\<close>, classical state \<open>0b0100\<close> and expected value \<open>0b10\<close> it is true.
\<close>

theorem evaluate_conditional_masked_field:
  "(m = 0 \<longrightarrow> evaluate_conditional (Some \<lparr>cond_mask = m, cond_val = e\<rparr>) state = Some True) \<and>
   (0 < m \<longrightarrow>
      evaluate_conditional (Some \<lparr>cond_mask = m, cond_val = e\<rparr>) state =
        Some (drop_bit (lowest_set_bit m) (state AND m) = e) \<and>
      odd (drop_bit (lowest_set_bit m) m) \<and>
      (\<forall>n < lowest_set_bit m. even (drop_bit n m))) \<and>
   evaluate_conditional (Some \<lparr>cond_mask = 6, cond_val = 2\<rparr>) 4 = Some True"
proof -
  have "lowest_set_bit 6 = 1"
    by (simp add: lowest_set_bit.simps)
  then have "evaluate_conditional (Some \<lparr>cond_mask = 6, cond_val = 2\<rparr>) 4 = Some True"
    by (simp add: evaluate_conditional_closed)
  then show ?thesis
    by (simp add: evaluate_conditional_closed lowest_set_bit_odd lowest_set_bit_least)
qed

theorem evaluate_conditional_masked_field_witness:
  "evaluate_conditional (Some \<lparr>cond_mask = 0, cond_val = 5\<rparr>) 3 = Some True \<and>
   (0::int) < 6 \<and>
   evaluate_conditional (Some \<lparr>cond_mask = 6, cond_val = 2\<rparr>) 12 = Some True \<and>
   lowest_set_bit 6 = 1"
proof -
  have l: "lowest_set_bit 6 = 1"
    by (simp add: lowest_set_bit.simps)
  show ?thesis
    using evaluate_conditional_masked_field [of 0 5 3]
      evaluate_conditional_masked_field [of 6 2 12]
    by (simp add: l)
qed

text \<open>
  C2 as it is worded shifts the current classical state itself. With mask \<open>0b0110\<close>,
  classical state \<open>0b1100\<close> and expected value \<open>0b10\<close> the shifted state is \<open>0b110\<close>,
  which is not the expected value, while the code, which masks the state first, compares
  \<open>0b10\<close> and executes the instruction.
\<close>

theorem evaluate_conditional_unmasked_counterexample:
  "evaluate_conditional (Some \<lparr>cond_mask = 6, cond_val = 2\<rparr>) 12 = Some True \<and>
   spec_evaluate_conditional 6 2 12 = Some False"
  by (simp add: evaluate_conditional_def spec_evaluate_conditional_def shift_loop.simps)

text \<open>Two states agree on the bits the mask selects when their masked values are equal.\<close>

lemma agree_on_mask_iff:
  "(\<forall>n. bit m n \<longrightarrow> bit s1 n = bit s2 n) \<longleftrightarrow> s1 AND m = s2 AND (m::int)"
  by (auto simp: bit_eq_iff bit_and_iff)

text \<open>
  C10. The decision of a conditional clause depends only on the bits of the classical
  state that the mask selects: two classical states that agree on every bit position set
  in the mask get the same decision, and the decision is always reached. This holds for
  every mask, so for every nonzero one.
\<close>

theorem conditional_depends_on_masked_bits:
  assumes "\<forall>n. bit m n \<longrightarrow> bit s1 n = bit s2 n"
  shows "evaluate_conditional (Some \<lparr>cond_mask = m, cond_val = e\<rparr>) s1 =
           evaluate_conditional (Some \<lparr>cond_mask = m, cond_val = e\<rparr>) s2 \<and>
         (\<exists>b. evaluate_conditional (Some \<lparr>cond_mask = m, cond_val = e\<rparr>) s1 = Some b)"
proof -
  from assms have "s1 AND m = s2 AND m"
    by (simp add: agree_on_mask_iff)
  then show ?thesis
    by (auto simp: evaluate_conditional_closed)
qed

text \<open>
  The states \<open>0b00100\<close> and \<open>0b10100\<close> differ at bit 4, above the highest bit of the mask
  \<open>0b0110\<close>, and agree on the bits of the mask.
\<close>

theorem conditional_depends_on_masked_bits_witness:
  "(4::int) AND 6 = 20 AND 6 \<and> bit (20::int) 4 \<and> \<not> bit (4::int) 4 \<and>
   evaluate_conditional (Some \<lparr>cond_mask = 6, cond_val = 2\<rparr>) 4 =
     evaluate_conditional (Some \<lparr>cond_mask = 6, cond_val = 2\<rparr>) 20"
proof -
  have a: "(4::int) AND 6 = 20 AND 6" by simp
  then have "\<forall>n. bit (6::int) n \<longrightarrow> bit (4::int) n = bit (20::int) n"
    by (simp only: agree_on_mask_iff)
  from conditional_depends_on_masked_bits [OF this, of 2] a show ?thesis
    by (simp add: bit_iff_odd_drop_bit)
qed

section \<open>The register layout\<close>

text \<open>
  Names form contiguous runs when the list of names, with adjacent repetitions removed,
  has no repetition. Then the runs come in the order of first appearance of the names.
\<close>

lemma remdups_snoc: "remdups (ys @ [x]) = filter (\<lambda>y. y \<noteq> x) (remdups ys) @ [x]"
  by (induction ys) auto

lemma first_appearance_Cons:
  "first_appearance (x # xs) = x # first_appearance (filter (\<lambda>y. y \<noteq> x) xs)"
  by (simp add: first_appearance_def remdups_snoc rev_filter remdups_filter)

lemma filter_neq_dropWhile:
  "x \<notin> set (dropWhile (\<lambda>y. y = x) xs) \<Longrightarrow> filter (\<lambda>y. y \<noteq> x) xs = dropWhile (\<lambda>y. y = x) xs"
  by (induction xs) (auto simp: filter_id_conv)

lemma remdups_adj_first_appearance:
  "distinct (remdups_adj xs) \<Longrightarrow> remdups_adj xs = first_appearance xs"
proof (induction "length xs" arbitrary: xs rule: less_induct)
  case less
  show ?case
  proof (cases xs)
    case Nil
    then show ?thesis by (simp add: first_appearance_def)
  next
    case (Cons x ys)
    let ?d = "dropWhile (\<lambda>y. y = x) ys"
    from less.prems Cons have d: "x \<notin> set ?d" "distinct (remdups_adj ?d)"
      by (simp_all add: remdups_adj_Cons')
    have "length ?d < length xs"
      using Cons length_dropWhile_le [of "\<lambda>y. y = x" ys] by simp
    from less.hyps [OF this d(2)] d(1) show ?thesis
      by (simp add: Cons remdups_adj_Cons' first_appearance_Cons filter_neq_dropWhile)
  qed
qed

lemma remdups_adj_map_Cons:
  "remdups_adj (map f (x # xs)) = f x # remdups_adj (map f (dropWhile (\<lambda>y. f y = f x) xs))"
  by (simp only: list.map remdups_adj_Cons' dropWhile_map comp_def)

lemma filter_run_same:
  assumes "f x \<notin> f ` set (dropWhile (\<lambda>y. f y = f x) xs)"
  shows "filter (\<lambda>y. f y = f x) xs = takeWhile (\<lambda>y. f y = f x) xs"
  using assms
proof (induction xs)
  case Nil
  then show ?case by simp
next
  case (Cons a xs)
  show ?case
  proof (cases "f a = f x")
    case True
    with Cons show ?thesis by simp
  next
    case False
    with Cons.prems have "\<forall>y\<in>set (a # xs). f y \<noteq> f x" by (auto simp: image_iff)
    then have "filter (\<lambda>y. f y = f x) (a # xs) = []" by (simp add: filter_empty_conv)
    with False show ?thesis by simp
  qed
qed

lemma filter_run_other:
  assumes "k \<noteq> f x"
  shows "filter (\<lambda>y. f y = k) xs = filter (\<lambda>y. f y = k) (dropWhile (\<lambda>y. f y = f x) xs)"
  using assms by (induction xs) simp_all

lemma groupby_runs:
  "distinct (remdups_adj (map f xs)) \<Longrightarrow>
   groupby f xs = map (\<lambda>k. (k, filter (\<lambda>x. f x = k) xs)) (remdups_adj (map f xs))"
proof (induction f xs rule: groupby.induct)
  case (1 f)
  then show ?case by simp
next
  case (2 f x xs)
  let ?d = "dropWhile (\<lambda>y. f y = f x) xs"
  note r = remdups_adj_map_Cons [of f x xs]
  from "2.prems" have dist: "distinct (remdups_adj (map f ?d))"
    and nin: "f x \<notin> set (remdups_adj (map f ?d))"
    unfolding r by simp_all
  from nin have nin': "f x \<notin> f ` set ?d"
    by simp
  have head: "filter (\<lambda>y. f y = f x) (x # xs) = x # takeWhile (\<lambda>y. f y = f x) xs"
    using filter_run_same [OF nin'] by simp
  have tail: "map (\<lambda>k. (k, filter (\<lambda>y. f y = k) (x # xs))) (remdups_adj (map f ?d)) =
              map (\<lambda>k. (k, filter (\<lambda>y. f y = k) ?d)) (remdups_adj (map f ?d))"
  proof (rule map_cong [OF refl])
    fix k assume "k \<in> set (remdups_adj (map f ?d))"
    with nin have k: "k \<noteq> f x" by blast
    then have "filter (\<lambda>y. f y = k) (x # xs) = filter (\<lambda>y. f y = k) xs" by auto
    also have "\<dots> = filter (\<lambda>y. f y = k) ?d" using k by (rule filter_run_other [of k f x xs])
    finally show "(k, filter (\<lambda>y. f y = k) (x # xs)) = (k, filter (\<lambda>y. f y = k) ?d)"
      by (simp only:)
  qed
  have "groupby f (x # xs) = (f x, x # takeWhile (\<lambda>y. f y = f x) xs) # groupby f ?d"
    by (simp only: groupby.simps)
  also have "groupby f ?d = map (\<lambda>k. (k, filter (\<lambda>y. f y = k) ?d)) (remdups_adj (map f ?d))"
    by (rule "2.IH" [OF dist])
  finally have g: "groupby f (x # xs) =
      (f x, x # takeWhile (\<lambda>y. f y = f x) xs) #
      map (\<lambda>k. (k, filter (\<lambda>y. f y = k) ?d)) (remdups_adj (map f ?d))" .
  show ?case
    unfolding r by (simp only: list.map head tail g)
qed

lemma Max_insert_max:
  "finite S \<Longrightarrow> Max (insert (max a b) S) = max (a::nat) (Max (insert b S))"
  by (metis Max_insert Max_singleton max.assoc)

lemma max_list_fold: "fold max xs (a::nat) = Max (insert a (set xs))"
proof (induction xs arbitrary: a)
  case Nil
  then show ?case by simp
next
  case (Cons x xs)
  have "fold max (x # xs) a = Max (insert (max x a) (set xs))"
    using Cons.IH by simp
  also have "\<dots> = max x (Max (insert a (set xs)))"
    by (simp add: Max_insert_max)
  also have "\<dots> = Max (insert x (insert a (set xs)))"
    by (rule Max_insert [symmetric]) simp_all
  also have "\<dots> = Max (insert a (set (x # xs)))"
    by (simp only: insert_commute list.set)
  finally show ?case .
qed

lemma max_list_Max: "xs \<noteq> [] \<Longrightarrow> max_list xs = Max (set xs)"
  unfolding max_list_def max_list_fold
  by (cases xs) (auto simp: max_def)

lemma update_fresh: "k \<notin> fst ` set d \<Longrightarrow> AList.update k v d = d @ [(k, v)]"
  by (induction d) auto

lemma fold_update_distinct:
  "distinct (map fst (d @ ps)) \<Longrightarrow> fold (\<lambda>(k, v) d. AList.update k v d) ps d = d @ ps"
proof (induction ps arbitrary: d)
  case Nil
  then show ?case by simp
next
  case (Cons p ps)
  obtain k v where p: "p = (k, v)" by (cases p)
  from Cons.prems p have fresh: "k \<notin> fst ` set d" by auto
  from Cons.prems p have "distinct (map fst ((d @ [(k, v)]) @ ps))" by auto
  from Cons.IH [OF this] show ?case
    by (simp add: p update_fresh [OF fresh])
qed

lemma ordered_dict_distinct: "distinct (map fst ps) \<Longrightarrow> ordered_dict ps = ps"
  using fold_update_distinct [of "[]" ps] by (simp add: ordered_dict_def)

text \<open>
  C6. When the pairs that share a name form contiguous runs, \<open>_get_register_specs\<close>
  yields one (name, size) entry per name, in the order of first appearance, and the size
  is one plus the greatest local index among the pairs of that name; the ordered
  dictionary built from the entries keeps them as they are. On
  \<open>[('c', 0), ('c', 1), ('d', 0)]\<close> the result is \<open>{'c': 2, 'd': 1}\<close> in that order.
\<close>

theorem get_register_specs_runs:
  assumes "distinct (remdups_adj (map fst bit_labels))"
  shows "get_register_specs bit_labels =
           map (\<lambda>nm. (nm, Max (snd ` {p \<in> set bit_labels. fst p = nm}) + 1))
             (first_appearance (map fst bit_labels)) \<and>
         remdups_adj (map fst bit_labels) = first_appearance (map fst bit_labels) \<and>
         ordered_dict (get_register_specs bit_labels) = get_register_specs bit_labels \<and>
         ordered_dict (get_register_specs [(''c'', 0), (''c'', 1), (''d'', 0)]) =
           [(''c'', 2), (''d'', 1)]"
proof -
  let ?names = "remdups_adj (map fst bit_labels)"
  have fa: "?names = first_appearance (map fst bit_labels)"
    using assms by (rule remdups_adj_first_appearance)
  have grp: "max_list (map snd (filter (\<lambda>p. fst p = nm) bit_labels)) =
             Max (snd ` {p \<in> set bit_labels. fst p = nm})" if "nm \<in> set ?names" for nm
  proof -
    from that have "filter (\<lambda>p. fst p = nm) bit_labels \<noteq> []"
      by (auto simp: filter_empty_conv)
    then have "max_list (map snd (filter (\<lambda>p. fst p = nm) bit_labels)) =
               Max (set (map snd (filter (\<lambda>p. fst p = nm) bit_labels)))"
      by (intro max_list_Max) simp
    then show ?thesis by simp
  qed
  have "get_register_specs bit_labels =
        map (\<lambda>(nm, sub_it). (nm, max_list (map snd sub_it) + 1))
          (map (\<lambda>k. (k, filter (\<lambda>p. fst p = k) bit_labels)) ?names)"
    by (simp only: get_register_specs_def groupby_runs [OF assms])
  also have "\<dots> = map (\<lambda>nm. (nm, max_list (map snd (filter (\<lambda>p. fst p = nm) bit_labels)) + 1))
                      ?names"
    by (simp only: map_map comp_def prod.case)
  also have "\<dots> = map (\<lambda>nm. (nm, Max (snd ` {p \<in> set bit_labels. fst p = nm}) + 1)) ?names"
    by (rule map_cong [OF refl]) (simp only: grp)
  finally have specs: "get_register_specs bit_labels =
               map (\<lambda>nm. (nm, Max (snd ` {p \<in> set bit_labels. fst p = nm}) + 1)) ?names" .
  have keys: "map fst (get_register_specs bit_labels) = ?names"
    by (simp only: specs map_map comp_def fst_conv map_ident)
  have od: "ordered_dict (get_register_specs bit_labels) = get_register_specs bit_labels"
    using assms by (intro ordered_dict_distinct) (simp only: keys)
  have ex: "ordered_dict (get_register_specs [(''c'', 0), (''c'', 1), (''d'', 0)]) =
            [(''c'', 2), (''d'', 1)]"
    by (simp add: get_register_specs_def max_list_def ordered_dict_def)
  from specs [unfolded fa] fa od ex show ?thesis by blast
qed

theorem get_register_specs_runs_witness:
  "distinct (remdups_adj (map fst [(''q'', 0::nat), (''q'', 2), (''q'', 1), (''r'', 0)])) \<and>
   ordered_dict (get_register_specs [(''q'', 0), (''q'', 2), (''q'', 1), (''r'', 0)]) =
     [(''q'', 3), (''r'', 1)] \<and>
   first_appearance (map fst [(''q'', 0::nat), (''q'', 2), (''q'', 1), (''r'', 0)]) = [''q'', ''r'']"
proof -
  have d: "distinct (remdups_adj (map fst [(''q'', 0::nat), (''q'', 2), (''q'', 1), (''r'', 0)]))"
    by simp
  have e: "get_register_specs [(''q'', 0), (''q'', 2), (''q'', 1), (''r'', 0)] =
           [(''q'', 3), (''r'', 1)]"
    by (simp add: get_register_specs_def max_list_def)
  from get_register_specs_runs [OF d]
  have "ordered_dict (get_register_specs [(''q'', 0), (''q'', 2), (''q'', 1), (''r'', 0)]) =
        get_register_specs [(''q'', 0), (''q'', 2), (''q'', 1), (''r'', 0)]"
    by blast
  with d e show ?thesis
    by (simp add: first_appearance_def)
qed

section \<open>The dispatch\<close>

text \<open>Running a list of instructions in two parts.\<close>

lemma run_ops_append:
  "run_ops env backend qureg (xs @ ys) st =
     (case run_ops env backend qureg xs st of
        Some (Inr st') \<Rightarrow> run_ops env backend qureg ys st'
      | r \<Rightarrow> r)"
proof (induction xs arbitrary: st)
  case Nil
  then show ?case by simp
next
  case (Cons x xs)
  obtain b where b: "evaluate_conditional (op_conditional x) (classical_state st) = Some b"
    using evaluate_conditional_total by blast
  show ?case
  proof (cases b)
    case True
    with b Cons show ?thesis by (simp split: sum.splits)
  next
    case False
    with b Cons show ?thesis by simp
  qed
qed

text \<open>The branch of the names \<open>U\<close> and \<open>u3\<close>.\<close>

lemma dispatch_generic_unitary:
  assumes "op_name operation = ''U'' \<or> op_name operation = ''u3''"
    and "op_params operation = theta # phi # lam # ps"
    and "op_qubits operation = q # qs"
    and "q < length qureg"
  shows "dispatch env backend qureg operation st =
           Inr (st\<lparr>kernel := kernel st @
                  [KRz (Ang lam) (qureg ! q), KRy (Ang theta) (qureg ! q),
                   KRz (Ang phi) (qureg ! q)]\<rparr>)"
  using assms
  by (auto simp: dispatch_def qubit_of_def index_def ebind_def apply_gates_def)

text \<open>
  C5. An instruction of kind \<open>U\<close> or \<open>u3\<close> with parameters \<open>\<theta>, \<phi>, \<lambda>\<close> on a qubit of
  the register, once it has passed the screening, makes exactly three kernel calls on
  its target qubit, in this order: the Z-rotation by \<open>\<lambda>\<close>, the Y-rotation by \<open>\<theta>\<close>, the
  Z-rotation by \<open>\<phi>\<close>. Nothing else of the state changes, and the loop goes on with
  the next instruction.
\<close>

theorem generic_unitary_three_rotations:
  assumes "op_name operation = ''U'' \<or> op_name operation = ''u3''"
    and "op_params operation = theta # phi # lam # ps"
    and "op_qubits operation = q # qs"
    and "q < length qureg"
    and "evaluate_conditional (op_conditional operation) (classical_state st) = Some True"
  shows "dispatch env backend qureg operation st =
           Inr (st\<lparr>kernel := kernel st @
                  [KRz (Ang lam) (qureg ! q), KRy (Ang theta) (qureg ! q),
                   KRz (Ang phi) (qureg ! q)]\<rparr>) \<and>
         run_ops env backend qureg (operation # rest) st =
           run_ops env backend qureg rest
             (st\<lparr>kernel := kernel st @
                  [KRz (Ang lam) (qureg ! q), KRy (Ang theta) (qureg ! q),
                   KRz (Ang phi) (qureg ! q)]\<rparr>)"
proof -
  have d: "dispatch env backend qureg operation st =
           Inr (st\<lparr>kernel := kernel st @
                  [KRz (Ang lam) (qureg ! q), KRy (Ang theta) (qureg ! q),
                   KRz (Ang phi) (qureg ! q)]\<rparr>)"
    by (rule dispatch_generic_unitary [OF assms(1-4)])
  show ?thesis
    using assms(5) by (simp add: d)
qed

theorem generic_unitary_three_rotations_witness:
  "run_ops example_env ''b'' [0, 1]
     [\<lparr>op_name = ''u3'', op_params = [PFloat 1, PFloat 2, PFloat 3], op_qubits = [1],
       op_clbits = [], op_conditional = None\<rparr>]
     \<lparr>classical_state = 0, kernel = [], snapshots = [], outcomes = []\<rparr> =
   Some (Inr \<lparr>classical_state = 0,
               kernel = [KRz (Ang (PFloat 3)) 1, KRy (Ang (PFloat 1)) 1, KRz (Ang (PFloat 2)) 1],
               snapshots = [], outcomes = []\<rparr>)"
  using generic_unitary_three_rotations
    [of "\<lparr>op_name = ''u3'', op_params = [PFloat 1, PFloat 2, PFloat 3], op_qubits = [1],
         op_clbits = [], op_conditional = None\<rparr>"
        "PFloat 1" "PFloat 2" "PFloat 3" "[]" 1 "[]" "[0, 1]"
        "\<lparr>classical_state = 0, kernel = [], snapshots = [], outcomes = []\<rparr>" example_env "''b''" "[]"]
  by (simp add: evaluate_conditional_def)

section \<open>Reset instructions\<close>

text \<open>An exception in the first shot is the outcome of the circuit.\<close>

lemma run_circuit_first_shot_fails:
  assumes "run_ops env backend (flat_qureg circ) (instructions circ) (initial_state circ sim) =
             Some (Inl e)"
    and "1 \<le> shots"
  shows "run_circuit env backend seed shots circ sim = Some (Inl e)"
proof -
  from assms(2) obtain n where n: "nat shots = Suc n"
    by (cases "nat shots") auto
  have i: "(initial_state circ sim :: 'a run_state)\<lparr>classical_state := 0\<rparr> = initial_state circ sim"
    by (simp add: initial_state_def)
  have "run_shot env backend circ (flat_qureg circ) 0 (initial_state circ sim) = Some (Inl e)"
    by (simp add: run_shot_def i assms(1))
  then have "run_shots env backend circ (flat_qureg circ) [0..<nat shots] (initial_state circ sim) =
             Some (Inl e)"
    unfolding n upt_conv_Cons [OF zero_less_Suc] by simp
  then show ?thesis
    by (simp add: run_circuit_def)
qed

text \<open>
  C1, as the code has it. The screening of lines 200 to 208 comes before the dispatch of
  every instruction, the reset included. Take a circuit run with at least one shot whose
  instructions before a reset run without an exception in the first shot. If the reset
  has no conditional clause, or its clause holds on the classical state the shot has
  reached, the circuit fails with the error of the unimplemented reset, wherever the
  reset stands in the list. If its clause does not hold, the reset is skipped and the
  shot goes on with the instructions after it.
\<close>

theorem reset_fails_when_reached:
  assumes "instructions circ = pre @ operation # post"
    and "op_name operation = ''reset''"
    and "op_qubits operation \<noteq> []"
    and "run_ops env backend (flat_qureg circ) pre (initial_state circ sim) = Some (Inr st1)"
    and "1 \<le> shots"
  shows "(evaluate_conditional (op_conditional operation) (classical_state st1) = Some True \<longrightarrow>
            run_circuit env backend seed shots circ sim =
              Some (Inl (SimulatorError reset_message))) \<and>
         (evaluate_conditional (op_conditional operation) (classical_state st1) = Some False \<longrightarrow>
            run_ops env backend (flat_qureg circ) (instructions circ) (initial_state circ sim) =
              run_ops env backend (flat_qureg circ) post st1)"
proof -
  have d: "dispatch env backend (flat_qureg circ) operation st1 =
           Inl (SimulatorError reset_message)"
    using assms(2,3) by (simp add: dispatch_def index_def ebind_def)
  have split: "run_ops env backend (flat_qureg circ) (instructions circ) (initial_state circ sim) =
               run_ops env backend (flat_qureg circ) (operation # post) st1"
    by (simp add: assms(1,4) run_ops_append)
  show ?thesis
  proof (intro conjI impI)
    assume "evaluate_conditional (op_conditional operation) (classical_state st1) = Some True"
    then have "run_ops env backend (flat_qureg circ) (instructions circ) (initial_state circ sim) =
               Some (Inl (SimulatorError reset_message))"
      by (simp add: split d)
    then show "run_circuit env backend seed shots circ sim =
               Some (Inl (SimulatorError reset_message))"
      using assms(5) by (rule run_circuit_first_shot_fails)
  next
    assume "evaluate_conditional (op_conditional operation) (classical_state st1) = Some False"
    then show "run_ops env backend (flat_qureg circ) (instructions circ) (initial_state circ sim) =
               run_ops env backend (flat_qureg circ) post st1"
      by (simp add: split)
  qed
qed

text \<open>
  C1 as it is worded fails on a reset whose clause does not hold: with mask 1 and
  expected value 1 on the classical state 0 of a fresh shot the reset is skipped, and
  the circuit returns its result.
\<close>

lemma clause_1_1_on_0: "evaluate_conditional (Some \<lparr>cond_mask = 1, cond_val = 1\<rparr>) 0 = Some False"
  by (simp add: evaluate_conditional_closed lowest_set_bit.simps)

theorem conditional_reset_skipped_counterexample:
  "run_circuit example_env ''b'' 7 1 (reset_circuit (Some \<lparr>cond_mask = 1, cond_val = 1\<rparr>))
     [KSimulator 7] =
   Some (Inr (\<lparr>res_name = ''circ'', res_seed = 7, res_shots = 1,
               res_data = \<lparr>counts = [(''0'', 1)], data_snapshots = None,
                            data_classical_state = Some 0, data_statevector = None\<rparr>,
               res_status = ''DONE'', res_success = True\<rparr>,
              [KSimulator 7, KMainEngine, KAllocate 1, KMeasure 0, KFlush]))"
  by (simp add: run_circuit_def reset_circuit_def flat_qureg_def qobj_quregs_def
      get_register_specs_def max_list_def ordered_dict_def initial_state_def setup_calls_def
      seed_override_def run_shot_def clause_1_1_on_0 index_def ebind_def format_b_def
      bin_digits.simps zfill_def counter_def format_result_def format_key_def py_slice_def
      adjust_index_def)

theorem reset_fails_when_reached_witness:
  "run_circuit example_env ''b'' 7 3 reset_after_h [KSimulator 7] =
     Some (Inl (SimulatorError reset_message)) \<and>
   run_ops example_env ''b'' (flat_qureg (reset_circuit (Some \<lparr>cond_mask = 1, cond_val = 1\<rparr>)))
     (instructions (reset_circuit (Some \<lparr>cond_mask = 1, cond_val = 1\<rparr>)))
     (initial_state (reset_circuit (Some \<lparr>cond_mask = 1, cond_val = 1\<rparr>)) [KSimulator 7]) =
     Some (Inr \<lparr>classical_state = 0, kernel = [KSimulator 7, KMainEngine, KAllocate 1],
                 snapshots = [], outcomes = []\<rparr>)"
proof -
  let ?h = "\<lparr>op_name = ''h'', op_params = [], op_qubits = [0], op_clbits = [], op_conditional = None\<rparr>"
  let ?r = "\<lambda>c. \<lparr>op_name = ''reset'', op_params = [], op_qubits = [0], op_clbits = [],
                 op_conditional = c\<rparr>"
  let ?m = "\<lparr>op_name = ''measure'', op_params = [], op_qubits = [0], op_clbits = [0],
             op_conditional = None\<rparr>"
  let ?st0 = "\<lparr>classical_state = 0, kernel = [KSimulator 7, KMainEngine, KAllocate 1],
              snapshots = [], outcomes = []\<rparr> :: nat run_state"
  let ?st1 = "\<lparr>classical_state = 0, kernel = [KSimulator 7, KMainEngine, KAllocate 1, KH 0],
              snapshots = [], outcomes = []\<rparr> :: nat run_state"
  let ?c = "reset_circuit (Some \<lparr>cond_mask = 1, cond_val = 1\<rparr>)"
  have q1: "flat_qureg reset_after_h = [0]" and q2: "flat_qureg ?c = [0]"
    by (simp_all add: flat_qureg_def qobj_quregs_def get_register_specs_def max_list_def
        ordered_dict_def reset_after_h_def reset_circuit_def)
  have i1: "initial_state reset_after_h [KSimulator 7] = ?st0"
    and i2: "initial_state ?c [KSimulator 7] = ?st0"
    by (simp_all add: initial_state_def setup_calls_def seed_override_def qobj_quregs_def
        get_register_specs_def max_list_def ordered_dict_def reset_after_h_def reset_circuit_def)
  have a: "instructions reset_after_h = [?h] @ ?r None # [?m]"
    by (simp add: reset_after_h_def)
  have b: "run_ops example_env ''b'' (flat_qureg reset_after_h) [?h]
             (initial_state reset_after_h [KSimulator 7]) = Some (Inr ?st1)"
    by (simp add: q1 i1 evaluate_conditional_def dispatch_def qubit_of_def index_def ebind_def
        apply_gates_def)
  have c: "instructions ?c = [] @ ?r (Some \<lparr>cond_mask = 1, cond_val = 1\<rparr>) # []"
    by (simp add: reset_circuit_def)
  have d: "run_ops example_env ''b'' (flat_qureg ?c) [] (initial_state ?c [KSimulator 7]) =
           Some (Inr ?st0)"
    by (simp add: i2)
  have w1: "run_circuit example_env ''b'' 7 3 reset_after_h [KSimulator 7] =
            Some (Inl (SimulatorError reset_message))"
    using reset_fails_when_reached [OF a _ _ b, of 3 7]
    by (simp add: evaluate_conditional_def)
  have w2: "run_ops example_env ''b'' (flat_qureg ?c) (instructions ?c)
              (initial_state ?c [KSimulator 7]) = Some (Inr ?st0)"
    using reset_fails_when_reached [OF c _ _ d, of 1 7]
    by (simp add: clause_1_1_on_0 i2)
  from w1 w2 show ?thesis
    by simp
qed

end
